theory Spec2Isabelle
  imports Complex_Main
begin

section \<open>The remote service and the client handle\<close>

text \<open>
  The application talks to the GitHub REST API through an Octokit client built from a
  bearer token. A remote call either resolves with data or rejects; a rejected promise is
  the \<open>Inl\<close> branch of a sum. The behaviour of the remote service is a parameter of
  every operation (a record of endpoint functions), so that theorems hold for whatever the
  service answers.
\<close>

datatype remote_error = RequestError int | NetworkError

datatype Octokit = new_Octokit (auth: string)

record user_data =
  user_login :: string
  user_avatar_url :: string
  user_html_url :: string

record GistFile =
  gf_filename :: string
  gf_content :: string
  gf_language :: "string option"
  gf_type :: "string option"
  gf_raw_url :: "string option"
  gf_size :: "int option"

record GistOwner =
  owner_login :: string
  owner_avatar_url :: string

record Gist =
  gist_id :: string
  gist_description :: string
  gist_public :: bool
  created_at :: string
  updated_at :: string
  comments :: int
  html_url :: string
  gist_files :: "string \<rightharpoonup> GistFile"
  owner :: GistOwner
  stargazers_count :: "int option"
  truncated :: "bool option"

text \<open>
  The form pages collect the files of a request in an object literal \<open>{}\<close> filled with
  \<open>filesObj[key] = value\<close>. Such an object has own properties and a prototype, at first
  \<open>Object.prototype\<close>. The key \<open>__proto__\<close> is special: while \<open>Object.prototype\<close> is on the
  prototype chain the assignment runs the inherited setter, which replaces the prototype
  of the object (by the assigned object, or by none when \<open>null\<close> is assigned) and creates
  no own property. Once the prototype is \<open>null\<close> the setter is out of reach, and the
  assignment creates an own property as for any other key. The JSON body of a request
  holds the own properties only.
\<close>

datatype 'v prototype = Object_prototype | Null_prototype | Value_prototype 'v

record 'v js_object =
  own :: "string \<rightharpoonup> 'v"
  proto :: "'v prototype"

definition empty_object :: "'v js_object" where
  "empty_object = \<lparr>own = Map.empty, proto = Object_prototype\<rparr>"

definition set_property :: "('v \<Rightarrow> bool) \<Rightarrow> 'v js_object \<Rightarrow> string \<Rightarrow> 'v \<Rightarrow> 'v js_object" where
  "set_property is_null obj k v =
     (if k = ''__proto__'' \<and> proto obj \<noteq> Null_prototype then
        obj\<lparr>proto := (if is_null v then Null_prototype else Value_prototype v)\<rparr>
      else obj\<lparr>own := (own obj)(k \<mapsto> v)\<rparr>)"

text \<open>The object \<open>{ content: string }\<close> of the request bodies; \<open>null\<close> in the update
  body is \<open>None\<close> of the option around it.\<close>

datatype content_obj = Content string

definition never_null :: "content_obj \<Rightarrow> bool" where
  "never_null v = False"

definition is_null :: "content_obj option \<Rightarrow> bool" where
  "is_null v = (v = None)"

record create_params =
  cp_description :: string
  cp_files :: "content_obj js_object"
  cp_public :: bool

record update_params =
  up_gist_id :: string
  up_description :: string
  up_files :: "content_obj option js_object"

record remote =
  users_getAuthenticated :: "Octokit \<Rightarrow> remote_error + user_data"
  gists_list :: "Octokit \<Rightarrow> remote_error + Gist list"
  gists_listStarred :: "Octokit \<Rightarrow> remote_error + Gist list"
  gists_create :: "Octokit \<Rightarrow> create_params \<Rightarrow> remote_error + Gist"
  gists_update :: "Octokit \<Rightarrow> update_params \<Rightarrow> remote_error + Gist"
  gists_checkIsStarred :: "Octokit \<Rightarrow> string \<Rightarrow> remote_error + unit"

text \<open>JavaScript truthiness of an optional string: \<open>undefined\<close>, \<open>null\<close> and the empty
  string are falsy.\<close>

fun truthy :: "string option \<Rightarrow> bool" where
  "truthy None = False"
| "truthy (Some s) = (s \<noteq> [])"

section \<open>Session manager (auth-provider.tsx)\<close>

datatype toast = toast_success string | toast_error string

text \<open>The five \<open>useState\<close> cells of \<open>AuthProvider\<close>, the browser's local storage and the
  notifications emitted so far.\<close>

record auth_state =
  isAuthenticated :: bool
  isLoading :: bool
  user :: "user_data option"
  token :: "string option"
  octokit :: "Octokit option"
  localStorage :: "string \<rightharpoonup> string"
  toasts :: "toast list"

definition AuthProvider_init :: "(string \<rightharpoonup> string) \<Rightarrow> auth_state" where
  "AuthProvider_init storage =
     \<lparr>isAuthenticated = False, isLoading = True, user = None, token = None,
      octokit = None, localStorage = storage, toasts = []\<rparr>"

definition setIsAuthenticated :: "bool \<Rightarrow> auth_state \<Rightarrow> auth_state" where
  "setIsAuthenticated b s = s\<lparr>isAuthenticated := b\<rparr>"

definition setIsLoading :: "bool \<Rightarrow> auth_state \<Rightarrow> auth_state" where
  "setIsLoading b s = s\<lparr>isLoading := b\<rparr>"

definition setUser :: "user_data option \<Rightarrow> auth_state \<Rightarrow> auth_state" where
  "setUser u s = s\<lparr>user := u\<rparr>"

definition setToken :: "string option \<Rightarrow> auth_state \<Rightarrow> auth_state" where
  "setToken t s = s\<lparr>token := t\<rparr>"

definition setOctokit :: "Octokit option \<Rightarrow> auth_state \<Rightarrow> auth_state" where
  "setOctokit c s = s\<lparr>octokit := c\<rparr>"

definition localStorage_getItem :: "string \<Rightarrow> auth_state \<Rightarrow> string option" where
  "localStorage_getItem k s = localStorage s k"

definition localStorage_setItem :: "string \<Rightarrow> string \<Rightarrow> auth_state \<Rightarrow> auth_state" where
  "localStorage_setItem k v s = s\<lparr>localStorage := (localStorage s)(k \<mapsto> v)\<rparr>"

definition localStorage_removeItem :: "string \<Rightarrow> auth_state \<Rightarrow> auth_state" where
  "localStorage_removeItem k s = s\<lparr>localStorage := (localStorage s)(k := None)\<rparr>"

definition emit :: "toast \<Rightarrow> auth_state \<Rightarrow> auth_state" where
  "emit t s = s\<lparr>toasts := toasts s @ [t]\<rparr>"

text \<open>
  \<open>login\<close>: \<open>try { setIsLoading(true); probe; store; set fields; toast }
  catch { toast.error; throw } finally { setIsLoading(false) }\<close>.
  The result is the settled promise (\<open>Inl\<close> when it rejects) and the state afterwards.
\<close>

definition login :: "remote \<Rightarrow> string \<Rightarrow> auth_state \<Rightarrow> (remote_error + unit) \<times> auth_state" where
  "login R newToken s0 =
     (let s = setIsLoading True s0;
          newOctokit = new_Octokit newToken
      in case users_getAuthenticated R newOctokit of
           Inr userData \<Rightarrow>
             (let s = localStorage_setItem ''github_token'' newToken s;
                  s = setToken (Some newToken) s;
                  s = setUser (Some userData) s;
                  s = setOctokit (Some newOctokit) s;
                  s = setIsAuthenticated True s;
                  s = emit (toast_success (''Welcome, '' @ user_login userData @ ''!'')) s
              in (Inr (), setIsLoading False s))
         | Inl error \<Rightarrow>
             (let s = emit (toast_error
                        ''Authentication failed. Please check your token and try again.'') s
              in (Inl error, setIsLoading False s)))"

definition logout :: "auth_state \<Rightarrow> auth_state" where
  "logout s0 =
     (let s = localStorage_removeItem ''github_token'' s0;
          s = setToken None s;
          s = setUser None s;
          s = setOctokit None s;
          s = setIsAuthenticated False s
      in emit (toast_success ''Logged out successfully'') s)"

text \<open>The mount effect of \<open>AuthProvider\<close>: silent login with the stored token.\<close>

definition mount_effect :: "remote \<Rightarrow> auth_state \<Rightarrow> auth_state" where
  "mount_effect R s =
     (let storedToken = localStorage_getItem ''github_token'' s
      in if truthy storedToken then
           (case login R (the storedToken) s of
              (Inr _, s') \<Rightarrow> s'
            | (Inl error, s') \<Rightarrow>
                setIsLoading False (localStorage_removeItem ''github_token'' s'))
         else setIsLoading False s)"

text \<open>The states the provider can be in: the initial render over any stored data, followed
  by any sequence of the mount effect, logins and logouts, against any remote answers.
  While the identity probe of a login is awaited, only \<open>setIsLoading(true)\<close> has run.\<close>

inductive reachable :: "auth_state \<Rightarrow> bool" where
  start: "reachable (AuthProvider_init storage)"
| pending: "reachable s \<Longrightarrow> reachable (setIsLoading True s)"
| mount: "reachable s \<Longrightarrow> reachable (mount_effect R s)"
| logged_in: "reachable s \<Longrightarrow> reachable (snd (login R t s))"
| logged_out: "reachable s \<Longrightarrow> reachable (logout s)"

definition session_invariant :: "auth_state \<Rightarrow> bool" where
  "session_invariant s = (isAuthenticated s \<longrightarrow> user s \<noteq> None \<and> octokit s \<noteq> None)"

text \<open>The state in which nobody is logged in and nothing is persisted.\<close>

definition logged_out_state :: "auth_state \<Rightarrow> bool" where
  "logged_out_state s =
     (localStorage s ''github_token'' = None \<and> token s = None \<and> user s = None
      \<and> octokit s = None \<and> \<not> isAuthenticated s)"

section \<open>Route guard (protected-route.tsx)\<close>

datatype element =
    LoadingSpinner
  | Navigate (to: string) (state_from: string) (replace: bool)
  | Outlet

definition ProtectedRoute :: "auth_state \<Rightarrow> string \<Rightarrow> element" where
  "ProtectedRoute s location =
     (if isLoading s then LoadingSpinner
      else if \<not> isAuthenticated s then Navigate ''/login'' location True
      else Outlet)"

section \<open>Gist client (gist-service.ts)\<close>

definition createGist ::
  "remote \<Rightarrow> Octokit \<Rightarrow> string \<Rightarrow> content_obj js_object \<Rightarrow> bool \<Rightarrow> remote_error + Gist" where
  "createGist R this_octokit description files isPublic =
     gists_create R this_octokit
       \<lparr>cp_description = description, cp_files = files, cp_public = isPublic\<rparr>"

definition updateGist ::
  "remote \<Rightarrow> Octokit \<Rightarrow> string \<Rightarrow> string \<Rightarrow> content_obj option js_object
     \<Rightarrow> remote_error + Gist" where
  "updateGist R this_octokit gid description files =
     gists_update R this_octokit
       \<lparr>up_gist_id = gid, up_description = description, up_files = files\<rparr>"

text \<open>\<open>try { await checkIsStarred; return true } catch (error) { return false }\<close>\<close>

definition isGistStarred :: "remote \<Rightarrow> Octokit \<Rightarrow> string \<Rightarrow> remote_error + bool" where
  "isGistStarred R this_octokit gid =
     (case gists_checkIsStarred R this_octokit gid of
        Inr _ \<Rightarrow> Inr True
      | Inl error \<Rightarrow> Inr False)"

text \<open>
  JavaScript numbers are IEEE doubles. A finite double that is not negative is
  \<open>mant * 2 ^ expo\<close> with a mantissa below \<open>2 ^ 53\<close> and an exponent from \<open>- 1074\<close> on.
\<close>

record double =
  mant :: nat
  expo :: int

definition double_value :: "double \<Rightarrow> real" where
  "double_value d =
     (if 0 \<le> expo d then real (mant d) * 2 ^ nat (expo d)
      else real (mant d) / 2 ^ nat (- expo d))"

definition is_double :: "double \<Rightarrow> bool" where
  "is_double d = (mant d < 2 ^ 53 \<and> - 1074 \<le> expo d \<and> expo d \<le> 971)"

text \<open>
  The product of two such doubles is the exact product rounded to 53 significant bits
  (fewer where the result is subnormal), ties to the even neighbour: \<open>round_shift n s\<close>
  is \<open>n / 2 ^ s\<close> rounded to an integer in that way. Products here stay far below
  \<open>2 ^ 1024\<close>, where the result would be \<open>Infinity\<close>.
\<close>

fun bit_length :: "nat \<Rightarrow> nat" where
  "bit_length n = (if n = 0 then 0 else Suc (bit_length (n div 2)))"

declare bit_length.simps [simp del]

definition round_shift :: "nat \<Rightarrow> nat \<Rightarrow> nat" where
  "round_shift n s =
     (let q = n div 2 ^ s;
          r = n mod 2 ^ s
      in if 2 ^ s < 2 * r \<or> (2 * r = 2 ^ s \<and> odd q) then q + 1 else q)"

definition times_double :: "double \<Rightarrow> double \<Rightarrow> double" where
  "times_double x y =
     (let n = mant x * mant y;
          e = expo x + expo y;
          s = nat (max (int (bit_length n) - 53) (- 1074 - e))
      in \<lparr>mant = round_shift n s, expo = e + int s\<rparr>)"

definition hundred :: double where
  "hundred = \<lparr>mant = 100, expo = 0\<rparr>"

definition Math_floor :: "double \<Rightarrow> int" where
  "Math_floor d = \<lfloor>double_value d\<rfloor>"

text \<open>
  \<open>Math.random\<close> returns a double in \<open>[0, 1)\<close>; its state is the sequence of the draws
  still to come, and each call consumes the first.
\<close>

type_synonym rng = "nat \<Rightarrow> double"

definition Math_random :: "rng \<Rightarrow> double \<times> rng" where
  "Math_random g = (g 0, \<lambda>n. g (Suc n))"

definition well_formed_rng :: "rng \<Rightarrow> bool" where
  "well_formed_rng g = (\<forall>n. is_double (g n) \<and> double_value (g n) < 1)"

text \<open>The callback of \<open>gists.map\<close>: the \<open>try\<close> block draws the count and spreads the gist;
  the \<open>catch\<close> block would return the gist with count 0.\<close>

definition star_callback :: "Gist \<Rightarrow> rng \<Rightarrow> (remote_error + Gist) \<times> rng" where
  "star_callback gist g =
     (let (r, g') = Math_random g;
          attempt = (Inr (Math_floor (times_double r hundred)) :: remote_error + int)
      in case attempt of
           Inr count \<Rightarrow> (Inr (gist\<lparr>stargazers_count := Some count\<rparr>), g')
         | Inl error \<Rightarrow> (Inr (gist\<lparr>stargazers_count := Some 0\<rparr>), g'))"

fun map_rng :: "('a \<Rightarrow> rng \<Rightarrow> 'b \<times> rng) \<Rightarrow> 'a list \<Rightarrow> rng \<Rightarrow> 'b list \<times> rng" where
  "map_rng f [] g = ([], g)"
| "map_rng f (x # xs) g =
     (let (y, g1) = f x g;
          (ys, g2) = map_rng f xs g1
      in (y # ys, g2))"

fun Promise_all :: "('e + 'a) list \<Rightarrow> 'e + 'a list" where
  "Promise_all [] = Inr []"
| "Promise_all (Inl e # ps) = Inl e"
| "Promise_all (Inr x # ps) =
     (case Promise_all ps of Inl e \<Rightarrow> Inl e | Inr xs \<Rightarrow> Inr (x # xs))"

definition addStargazersCount :: "Gist list \<Rightarrow> rng \<Rightarrow> (remote_error + Gist list) \<times> rng" where
  "addStargazersCount gists g =
     (let (promises, g') = map_rng star_callback gists g
      in (Promise_all promises, g'))"

definition getGists :: "remote \<Rightarrow> Octokit \<Rightarrow> rng \<Rightarrow> (remote_error + Gist list) \<times> rng" where
  "getGists R this_octokit g =
     (case gists_list R this_octokit of
        Inl error \<Rightarrow> (Inl error, g)
      | Inr data \<Rightarrow> addStargazersCount data g)"

definition getStarredGists :: "remote \<Rightarrow> Octokit \<Rightarrow> rng \<Rightarrow> (remote_error + Gist list) \<times> rng" where
  "getStarredGists R this_octokit g =
     (case gists_listStarred R this_octokit of
        Inl error \<Rightarrow> (Inl error, g)
      | Inr data \<Rightarrow> addStargazersCount data g)"

text \<open>The gist as \<open>addStargazersCount\<close> returns it for the draw \<open>r\<close>.\<close>

definition with_count :: "Gist \<Rightarrow> double \<Rightarrow> Gist" where
  "with_count gist r = gist\<lparr>stargazers_count := Some (Math_floor (times_double r hundred))\<rparr>"

section \<open>Form pages (gist-create-page.tsx and the edit page)\<close>

record CreateFormFile =
  new_filename :: string
  new_content :: string

record CreateFormValues =
  create_description :: "string option"
  create_public :: bool
  create_files :: "CreateFormFile list"

record GistFormFile =
  originalFilename :: "string option"
  filename :: string
  content :: string
  isDeleted :: bool

record EditFormValues =
  edit_description :: "string option"
  edit_files :: "GistFormFile list"

text \<open>What \<open>onSubmit\<close> changes on a page: two state cells, the toast and the navigation.\<close>

record page_state =
  isSubmitting :: bool
  error :: "string option"
  page_toasts :: "string list"
  navigated :: "string option"

definition setIsSubmitting :: "bool \<Rightarrow> page_state \<Rightarrow> page_state" where
  "setIsSubmitting b p = p\<lparr>isSubmitting := b\<rparr>"

definition setError :: "string option \<Rightarrow> page_state \<Rightarrow> page_state" where
  "setError e p = p\<lparr>error := e\<rparr>"

definition toast_title :: "string \<Rightarrow> page_state \<Rightarrow> page_state" where
  "toast_title t p = p\<lparr>page_toasts := page_toasts p @ [t]\<rparr>"

definition navigate :: "string \<Rightarrow> page_state \<Rightarrow> page_state" where
  "navigate path p = p\<lparr>navigated := Some path\<rparr>"

text \<open>\<open>data.description || ''\<close>\<close>

definition or_empty :: "string option \<Rightarrow> string" where
  "or_empty d = (if truthy d then the d else [])"

text \<open>\<open>data.files.forEach((file) => { filesObj[file.filename] = { content: file.content } })\<close>
  starting from the empty object.\<close>

definition create_put :: "content_obj js_object \<Rightarrow> CreateFormFile \<Rightarrow> content_obj js_object" where
  "create_put filesObj file =
     set_property never_null filesObj (new_filename file) (Content (new_content file))"

definition create_filesObj :: "CreateFormFile list \<Rightarrow> content_obj js_object" where
  "create_filesObj fs = foldl create_put empty_object fs"

definition create_onSubmit ::
  "remote \<Rightarrow> auth_state \<Rightarrow> CreateFormValues \<Rightarrow> page_state \<Rightarrow> page_state" where
  "create_onSubmit R a data p0 =
     (case octokit a of
        None \<Rightarrow> p0
      | Some oct \<Rightarrow>
          (let p = setIsSubmitting True p0;
               p = setError None p;
               filesObj = create_filesObj (create_files data)
           in case createGist R oct (or_empty (create_description data)) filesObj
                     (create_public data) of
                Inr newGist \<Rightarrow>
                  (let p = toast_title ''Gist created successfully'' p;
                       p = navigate (''/gists/'' @ gist_id newGist) p
                   in setIsSubmitting False p)
              | Inl err \<Rightarrow>
                  (let p = setError (Some ''Failed to create gist. Please try again.'') p
                   in setIsSubmitting False p)))"

text \<open>The body of the edit page's \<open>forEach\<close>: deletion of an existing file, rename, or
  plain write, decided in this order.\<close>

definition edit_put ::
  "content_obj option js_object \<Rightarrow> GistFormFile \<Rightarrow> content_obj option js_object" where
  "edit_put filesObj file =
     (if isDeleted file \<and> truthy (originalFilename file) then
        set_property is_null filesObj (the (originalFilename file)) None
      else if truthy (originalFilename file) \<and> the (originalFilename file) \<noteq> filename file then
        set_property is_null
          (set_property is_null filesObj (the (originalFilename file)) None)
          (filename file) (Some (Content (content file)))
      else
        set_property is_null filesObj (filename file) (Some (Content (content file))))"

definition edit_filesObj :: "GistFormFile list \<Rightarrow> content_obj option js_object" where
  "edit_filesObj fs = foldl edit_put empty_object fs"

definition edit_onSubmit ::
  "remote \<Rightarrow> auth_state \<Rightarrow> string option \<Rightarrow> EditFormValues \<Rightarrow> page_state \<Rightarrow> page_state" where
  "edit_onSubmit R a gid data p0 =
     (if octokit a = None \<or> \<not> truthy gid then p0
      else
        (let p = setIsSubmitting True p0;
             p = setError None p;
             filesObj = edit_filesObj (edit_files data)
         in case updateGist R (the (octokit a)) (the gid) (or_empty (edit_description data))
                   filesObj of
              Inr _ \<Rightarrow>
                (let p = toast_title ''Gist updated successfully'' p;
                     p = navigate (''/gists/'' @ the gid) p
                 in setIsSubmitting False p)
            | Inl err \<Rightarrow>
                (let p = setError (Some ''Failed to update gist. Please try again.'') p
                 in setIsSubmitting False p)))"

text \<open>The keys one form entry assigns to in the update payload.\<close>

definition written_keys :: "GistFormFile \<Rightarrow> string set" where
  "written_keys file =
     (if isDeleted file \<and> truthy (originalFilename file) then {the (originalFilename file)}
      else if truthy (originalFilename file) \<and> the (originalFilename file) \<noteq> filename file then
        {the (originalFilename file), filename file}
      else {filename file})"

section \<open>Concrete data for worked examples\<close>

text \<open>A remote service that knows one token, \<open>ghp_valid\<close> of user \<open>alice\<close>, echoes created
  gists back, and answers the star check per identifier.\<close>

definition alice :: user_data where
  "alice = \<lparr>user_login = ''alice'', user_avatar_url = ''https://example.org/alice.png'',
            user_html_url = ''https://example.org/alice''\<rparr>"

definition demo_gist :: "string \<Rightarrow> create_params \<Rightarrow> Gist" where
  "demo_gist gid params =
     \<lparr>gist_id = gid, gist_description = cp_description params, gist_public = cp_public params,
      created_at = ''2024-01-01T00:00:00Z'', updated_at = ''2024-01-01T00:00:00Z'',
      comments = 0, html_url = ''https://example.org/'' @ gid,
      gist_files = (\<lambda>name. case own (cp_files params) name of
                      None \<Rightarrow> None
                    | Some (Content c) \<Rightarrow>
                        Some \<lparr>gf_filename = name, gf_content = c, gf_language = None,
                              gf_type = None, gf_raw_url = None, gf_size = None\<rparr>),
      owner = \<lparr>owner_login = ''alice'', owner_avatar_url = ''https://example.org/alice.png''\<rparr>,
      stargazers_count = None, truncated = Some False\<rparr>"

definition demo_remote :: remote where
  "demo_remote =
     \<lparr>users_getAuthenticated =
        (\<lambda>c. if auth c = ''ghp_valid'' then Inr alice else Inl (RequestError 401)),
      gists_list = (\<lambda>c. Inr []),
      gists_listStarred = (\<lambda>c. Inr []),
      gists_create = (\<lambda>c params. Inr (demo_gist ''g1'' params)),
      gists_update = (\<lambda>c params. Inl (RequestError 404)),
      gists_checkIsStarred =
        (\<lambda>c gid. if gid = ''starred'' then Inr ()
                 else if gid = ''offline'' then Inl NetworkError
                 else Inl (RequestError 404))\<rparr>"

definition alice_session :: auth_state where
  "alice_session = snd (login demo_remote ''ghp_valid'' (AuthProvider_init Map.empty))"

text \<open>A random source whose first draws are the doubles nearest to 0.37 and to 0.03.\<close>

definition demo_rng :: rng where
  "demo_rng n =
     (if n = 0 then \<lparr>mant = 6665327448508334, expo = - 54\<rparr>
      else if n = 1 then \<lparr>mant = 8646911284551352, expo = - 58\<rparr>
      else \<lparr>mant = 0, expo = 0\<rparr>)"

definition plain_gist :: "string \<Rightarrow> Gist" where
  "plain_gist gid =
     demo_gist gid
       \<lparr>cp_description = ''demo'',
        cp_files = \<lparr>own = [''a.txt'' \<mapsto> Content ''hello''], proto = Object_prototype\<rparr>,
        cp_public = True\<rparr>"

definition page_init :: page_state where
  "page_init = \<lparr>isSubmitting = False, error = None, page_toasts = [], navigated = None\<rparr>"

definition duplicate_form :: CreateFormValues where
  "duplicate_form =
     \<lparr>create_description = Some ''demo'', create_public = True,
      create_files = [\<lparr>new_filename = ''a.txt'', new_content = ''first''\<rparr>,
                      \<lparr>new_filename = ''b.txt'', new_content = ''other''\<rparr>,
                      \<lparr>new_filename = ''a.txt'', new_content = ''second''\<rparr>]\<rparr>"

definition proto_form :: CreateFormValues where
  "proto_form =
     \<lparr>create_description = Some ''demo'', create_public = True,
      create_files = [\<lparr>new_filename = ''__proto__'', new_content = ''first''\<rparr>,
                      \<lparr>new_filename = ''__proto__'', new_content = ''second''\<rparr>]\<rparr>"

definition deleted_a :: GistFormFile where
  "deleted_a = \<lparr>originalFilename = Some ''a.txt'', filename = ''a.txt'', content = ''old'',
                isDeleted = True\<rparr>"

definition added_a :: GistFormFile where
  "added_a = \<lparr>originalFilename = None, filename = ''a.txt'', content = ''new'',
              isDeleted = False\<rparr>"

definition renamed_b :: GistFormFile where
  "renamed_b = \<lparr>originalFilename = Some ''b.txt'', filename = ''c.txt'', content = ''body'',
                isDeleted = False\<rparr>"

section \<open>Session manager: login, logout and the invariant\<close>

lemmas setter_defs = setIsAuthenticated_def setIsLoading_def setUser_def setToken_def
  setOctokit_def localStorage_getItem_def localStorage_setItem_def localStorage_removeItem_def
  emit_def

lemma login_rejected:
  assumes "users_getAuthenticated R (new_Octokit t) = Inl e"
  shows "login R t s =
           (Inl e, s\<lparr>isLoading := False,
                     toasts := toasts s @ [toast_error
                       ''Authentication failed. Please check your token and try again.'']\<rparr>)"
  using assms by (simp add: login_def setter_defs Let_def)

lemma login_resolved:
  assumes "users_getAuthenticated R (new_Octokit t) = Inr u"
  shows "login R t s =
           (Inr (), s\<lparr>isAuthenticated := True, isLoading := False, user := Some u,
                      token := Some t, octokit := Some (new_Octokit t),
                      localStorage := (localStorage s)(''github_token'' \<mapsto> t),
                      toasts := toasts s @ [toast_success (''Welcome, '' @ user_login u @ ''!'')]\<rparr>)"
  using assms by (simp add: login_def setter_defs Let_def)

lemma alice_session_eq:
  "alice_session =
     \<lparr>isAuthenticated = True, isLoading = False, user = Some alice, token = Some ''ghp_valid'',
      octokit = Some (new_Octokit ''ghp_valid''),
      localStorage = [''github_token'' \<mapsto> ''ghp_valid''],
      toasts = [toast_success ''Welcome, alice!'']\<rparr>"
  unfolding alice_session_def
  by (subst login_resolved [where u = alice])
     (simp_all add: demo_remote_def AuthProvider_init_def alice_def)

text \<open>
  Claim C1, as amended. For every token whose identity probe is rejected, \<open>login\<close>
  rejects with that error, emits exactly one notification, the failure one, turns
  \<open>isLoading\<close> off, and leaves the persisted storage and the fields \<open>token\<close>, \<open>user\<close>,
  \<open>octokit\<close> and \<open>isAuthenticated\<close> exactly as they were before the call. So when nothing was persisted and nobody was authenticated before the
  call, nothing is persisted and nobody is authenticated after it.
\<close>

theorem login_failure_keeps_session:
  assumes "users_getAuthenticated R (new_Octokit t) = Inl e"
  shows "fst (login R t s) = Inl e
         \<and> localStorage (snd (login R t s)) = localStorage s
         \<and> token (snd (login R t s)) = token s
         \<and> user (snd (login R t s)) = user s
         \<and> octokit (snd (login R t s)) = octokit s
         \<and> isAuthenticated (snd (login R t s)) = isAuthenticated s
         \<and> \<not> isLoading (snd (login R t s))
         \<and> toasts (snd (login R t s))
             = toasts s @ [toast_error
                 ''Authentication failed. Please check your token and try again.'']
         \<and> (localStorage s ''github_token'' = None \<and> \<not> isAuthenticated s \<longrightarrow>
              localStorage (snd (login R t s)) ''github_token'' = None
              \<and> \<not> isAuthenticated (snd (login R t s)))"
  by (simp add: login_rejected [OF assms])

theorem login_failure_keeps_session_witness:
  "users_getAuthenticated demo_remote (new_Octokit ''ghp_bad'') = Inl (RequestError 401)
   \<and> fst (login demo_remote ''ghp_bad'' (AuthProvider_init Map.empty)) = Inl (RequestError 401)
   \<and> localStorage (snd (login demo_remote ''ghp_bad'' (AuthProvider_init Map.empty)))
        ''github_token'' = None
   \<and> \<not> isAuthenticated (snd (login demo_remote ''ghp_bad'' (AuthProvider_init Map.empty)))
   \<and> toasts (snd (login demo_remote ''ghp_bad'' (AuthProvider_init Map.empty)))
       = [toast_error ''Authentication failed. Please check your token and try again.'']"
proof -
  have h: "users_getAuthenticated demo_remote (new_Octokit ''ghp_bad'') = Inl (RequestError 401)"
    by (simp add: demo_remote_def)
  show ?thesis
    using h login_failure_keeps_session [OF h, of "AuthProvider_init Map.empty"]
    by (simp add: AuthProvider_init_def)
qed

text \<open>
  The claim as first stated (whatever the state \<open>login\<close> is called from, a failed login
  leaves no persisted token and \<open>isAuthenticated = False\<close>) does not hold: after \<open>alice\<close>
  has logged in, a second login with a rejected token fails, and her token stays in storage
  and the session stays authenticated.
\<close>

theorem login_failure_stale_counterexample:
  "users_getAuthenticated demo_remote (new_Octokit ''ghp_bad'') = Inl (RequestError 401)
   \<and> reachable alice_session
   \<and> fst (login demo_remote ''ghp_bad'' alice_session) = Inl (RequestError 401)
   \<and> localStorage (snd (login demo_remote ''ghp_bad'' alice_session)) ''github_token''
       = Some ''ghp_valid''
   \<and> isAuthenticated (snd (login demo_remote ''ghp_bad'' alice_session))"
proof -
  have h: "users_getAuthenticated demo_remote (new_Octokit ''ghp_bad'') = Inl (RequestError 401)"
    by (simp add: demo_remote_def)
  have r: "reachable alice_session"
    unfolding alice_session_def by (rule reachable.logged_in) (rule reachable.start)
  show ?thesis
    using h r by (simp add: login_rejected [OF h] alice_session_eq)
qed

lemma invariant_init: "session_invariant (AuthProvider_init storage)"
  by (simp add: session_invariant_def AuthProvider_init_def)

lemma invariant_login:
  assumes "session_invariant s"
  shows "session_invariant (snd (login R t s))"
proof (cases "users_getAuthenticated R (new_Octokit t)")
  case (Inl e)
  with assms show ?thesis by (simp add: login_rejected session_invariant_def)
next
  case (Inr u)
  then show ?thesis by (simp add: login_resolved session_invariant_def)
qed

lemma invariant_pending:
  assumes "session_invariant s"
  shows "session_invariant (setIsLoading True s)"
  using assms by (simp add: session_invariant_def setIsLoading_def)

lemma invariant_logout: "session_invariant (logout s)"
  by (simp add: session_invariant_def logout_def setter_defs Let_def)

lemma invariant_mount:
  assumes "session_invariant s"
  shows "session_invariant (mount_effect R s)"
proof (cases "truthy (localStorage s ''github_token'')")
  case False
  with assms show ?thesis
    by (simp add: mount_effect_def setter_defs session_invariant_def Let_def)
next
  case True
  show ?thesis
  proof (cases "users_getAuthenticated R (new_Octokit (the (localStorage s ''github_token'')))")
    case (Inl e)
    with True assms show ?thesis
      by (simp add: mount_effect_def login_rejected setter_defs session_invariant_def Let_def)
  next
    case (Inr u)
    with True show ?thesis
      by (simp add: mount_effect_def login_resolved setter_defs session_invariant_def Let_def)
  qed
qed

text \<open>
  Claim C2. The session invariant (\<open>isAuthenticated\<close> implies that \<open>user\<close> and \<open>octokit\<close>
  are both present) holds in the initial state, is preserved by \<open>login\<close> (whether the
  probe resolves or rejects), by \<open>logout\<close> and by the mount effect, and therefore holds in
  every reachable state, the states in which a login is still awaited included.
\<close>

theorem session_invariant_reachable:
  "session_invariant (AuthProvider_init storage)
   \<and> (session_invariant s \<longrightarrow>
        session_invariant (snd (login R t s))
        \<and> session_invariant (logout s)
        \<and> session_invariant (mount_effect R s))
   \<and> (reachable s \<longrightarrow> session_invariant s)"
proof -
  have "session_invariant s" if "reachable s"
    using that
    by induction
      (simp_all add: invariant_init invariant_pending invariant_mount invariant_login
         invariant_logout)
  then show ?thesis
    by (simp add: invariant_init invariant_mount invariant_login invariant_logout)
qed

theorem session_invariant_reachable_witness:
  "reachable alice_session \<and> isAuthenticated alice_session
   \<and> user alice_session \<noteq> None \<and> octokit alice_session \<noteq> None"
proof -
  have r: "reachable alice_session"
    unfolding alice_session_def by (rule reachable.logged_in) (rule reachable.start)
  have a: "isAuthenticated alice_session"
    by (simp add: alice_session_eq)
  from r a session_invariant_reachable [of Map.empty alice_session demo_remote "''x''"]
  show ?thesis by (simp add: session_invariant_def)
qed

lemma mount_no_token:
  assumes "\<not> truthy (localStorage s ''github_token'')"
  shows "mount_effect R s = s\<lparr>isLoading := False\<rparr>"
  using assms by (simp add: mount_effect_def setter_defs Let_def)

lemma mount_resolved:
  assumes "localStorage s ''github_token'' = Some t" "t \<noteq> []"
    and "users_getAuthenticated R (new_Octokit t) = Inr u"
  shows "mount_effect R s = snd (login R t s)"
  using assms by (simp add: mount_effect_def login_resolved setter_defs Let_def)

lemma mount_rejected:
  assumes "localStorage s ''github_token'' = Some t" "t \<noteq> []"
    and "users_getAuthenticated R (new_Octokit t) = Inl e"
  shows "mount_effect R s =
           (snd (login R t s))\<lparr>isLoading := False,
              localStorage := (localStorage s)(''github_token'' := None)\<rparr>"
  using assms by (simp add: mount_effect_def login_rejected setter_defs Let_def)

text \<open>
  Claim C8. The provider starts with \<open>isLoading\<close> true and \<open>isAuthenticated\<close> false.
  The mount effect then resolves the session: with no stored token it only turns loading
  off; with a stored token that the identity probe accepts it logs in without any user
  action (identity, token and client handle set, token still stored); with a stored token
  that the probe rejects it removes the stored token and ends unauthenticated with loading
  off. A stored token is read with a truthiness test, so it is a non-empty string.
\<close>

theorem startup_behaviour:
  "isLoading (AuthProvider_init storage) \<and> \<not> isAuthenticated (AuthProvider_init storage)
   \<and> (storage ''github_token'' = None \<longrightarrow>
        \<not> isLoading (mount_effect R (AuthProvider_init storage))
        \<and> \<not> isAuthenticated (mount_effect R (AuthProvider_init storage))
        \<and> toasts (mount_effect R (AuthProvider_init storage)) = [])
   \<and> (storage ''github_token'' = Some t \<and> t \<noteq> []
        \<and> users_getAuthenticated R (new_Octokit t) = Inr u \<longrightarrow>
        isAuthenticated (mount_effect R (AuthProvider_init storage))
        \<and> \<not> isLoading (mount_effect R (AuthProvider_init storage))
        \<and> user (mount_effect R (AuthProvider_init storage)) = Some u
        \<and> token (mount_effect R (AuthProvider_init storage)) = Some t
        \<and> octokit (mount_effect R (AuthProvider_init storage)) = Some (new_Octokit t)
        \<and> localStorage (mount_effect R (AuthProvider_init storage)) ''github_token'' = Some t)
   \<and> (storage ''github_token'' = Some t \<and> t \<noteq> []
        \<and> users_getAuthenticated R (new_Octokit t) = Inl e \<longrightarrow>
        \<not> isAuthenticated (mount_effect R (AuthProvider_init storage))
        \<and> \<not> isLoading (mount_effect R (AuthProvider_init storage))
        \<and> localStorage (mount_effect R (AuthProvider_init storage)) ''github_token'' = None)"
proof -
  let ?s = "AuthProvider_init storage"
  have st: "localStorage ?s = storage" "isLoading ?s" "\<not> isAuthenticated ?s" "toasts ?s = []"
    by (simp_all add: AuthProvider_init_def)
  have none: ?thesis if "storage ''github_token'' = None"
    using that st by (simp add: mount_no_token)
  have some: ?thesis if h: "storage ''github_token'' = Some t'" for t'
  proof (cases "t' = t \<and> t \<noteq> []")
    case False
    with h st show ?thesis by auto
  next
    case True
    then have l: "localStorage ?s ''github_token'' = Some t" "t \<noteq> []"
      using h st by simp_all
    show ?thesis
    proof (cases "users_getAuthenticated R (new_Octokit t)")
      case (Inl e')
      with l st h True show ?thesis
        by (simp add: mount_rejected [OF l Inl] login_rejected [OF Inl])
    next
      case (Inr u')
      with l st h True show ?thesis
        by (simp add: mount_resolved [OF l Inr] login_resolved [OF Inr])
    qed
  qed
  show ?thesis
    using none some by (cases "storage ''github_token''") blast+
qed

theorem startup_behaviour_witness:
  "\<not> isLoading (mount_effect demo_remote (AuthProvider_init Map.empty))
   \<and> \<not> isAuthenticated (mount_effect demo_remote (AuthProvider_init Map.empty))
   \<and> isAuthenticated
        (mount_effect demo_remote (AuthProvider_init [''github_token'' \<mapsto> ''ghp_valid'']))
   \<and> user (mount_effect demo_remote (AuthProvider_init [''github_token'' \<mapsto> ''ghp_valid'']))
        = Some alice
   \<and> \<not> isAuthenticated
        (mount_effect demo_remote (AuthProvider_init [''github_token'' \<mapsto> ''ghp_bad'']))
   \<and> \<not> isLoading
        (mount_effect demo_remote (AuthProvider_init [''github_token'' \<mapsto> ''ghp_bad'']))
   \<and> localStorage
        (mount_effect demo_remote (AuthProvider_init [''github_token'' \<mapsto> ''ghp_bad'']))
        ''github_token'' = None"
  using startup_behaviour [of "Map.empty" demo_remote "''x''" alice "NetworkError"]
    startup_behaviour [of "[''github_token'' \<mapsto> ''ghp_valid'']" demo_remote "''ghp_valid''"
      alice "NetworkError"]
    startup_behaviour [of "[''github_token'' \<mapsto> ''ghp_bad'']" demo_remote "''ghp_bad''"
      alice "RequestError 401"]
  by (simp add: demo_remote_def)

text \<open>
  Claim C7. From any state \<open>logout\<close> removes the persisted token, clears \<open>token\<close>,
  \<open>user\<close> and \<open>octokit\<close> and sets \<open>isAuthenticated\<close> to false, without touching
  \<open>isLoading\<close>. It is a total function with no error result. From a state that is already
  logged out it changes nothing but the notification it emits, and a second \<open>logout\<close>
  after a first one changes nothing but that notification.
\<close>

theorem logout_idempotent:
  "logged_out_state (logout s)
   \<and> isLoading (logout s) = isLoading s
   \<and> (logged_out_state s \<longrightarrow>
        logout s = s\<lparr>toasts := toasts s @ [toast_success ''Logged out successfully'']\<rparr>)
   \<and> logout (logout s)
       = (logout s)\<lparr>toasts := toasts (logout s) @ [toast_success ''Logged out successfully'']\<rparr>"
  by (auto simp add: logout_def logged_out_state_def setter_defs Let_def fun_upd_idem)

theorem logout_idempotent_witness:
  "logged_out_state (AuthProvider_init Map.empty)
   \<and> logout (AuthProvider_init Map.empty)
       = (AuthProvider_init Map.empty)\<lparr>toasts := [toast_success ''Logged out successfully'']\<rparr>
   \<and> logged_out_state (logout alice_session)"
  using logout_idempotent [of "AuthProvider_init Map.empty"] logout_idempotent [of alice_session]
  by (simp add: logged_out_state_def AuthProvider_init_def)

section \<open>Route guard\<close>

text \<open>
  Claim C6. The route guard is a function of the session snapshot and the requested
  location with three outcomes: while \<open>isLoading\<close> it renders the spinner, whatever
  \<open>isAuthenticated\<close> is; when loading is over and the session is not authenticated it
  redirects to \<open>/login\<close>, carrying the requested location and replacing the history entry;
  when loading is over and the session is authenticated it renders the nested routes.
\<close>

theorem route_guard_three_states:
  "(isLoading s \<longrightarrow> ProtectedRoute s location = LoadingSpinner)
   \<and> (\<not> isLoading s \<and> \<not> isAuthenticated s \<longrightarrow>
        ProtectedRoute s location = Navigate ''/login'' location True)
   \<and> (\<not> isLoading s \<and> isAuthenticated s \<longrightarrow> ProtectedRoute s location = Outlet)"
  by (simp add: ProtectedRoute_def)

theorem route_guard_three_states_witness:
  "ProtectedRoute (AuthProvider_init Map.empty) ''/gists'' = LoadingSpinner
   \<and> ProtectedRoute (setIsLoading False (AuthProvider_init Map.empty)) ''/gists''
       = Navigate ''/login'' ''/gists'' True
   \<and> ProtectedRoute (setIsAuthenticated True (setIsLoading False (AuthProvider_init Map.empty)))
       ''/gists'' = Outlet"
  using route_guard_three_states [of "AuthProvider_init Map.empty" "''/gists''"]
    route_guard_three_states [of "setIsLoading False (AuthProvider_init Map.empty)" "''/gists''"]
    route_guard_three_states
      [of "setIsAuthenticated True (setIsLoading False (AuthProvider_init Map.empty))" "''/gists''"]
  by (simp add: AuthProvider_init_def setIsLoading_def setIsAuthenticated_def)

section \<open>Gist client\<close>

text \<open>
  Claim C3. \<open>isGistStarred\<close> always resolves with a boolean and never rejects: it
  resolves with true exactly when the remote star check resolves, and with false for every
  rejection of that check, a 404 and a network failure alike.
\<close>

theorem isGistStarred_collapses:
  "(\<exists>b. isGistStarred R c gid = Inr b)
   \<and> (isGistStarred R c gid = Inr True \<longleftrightarrow> (\<exists>u. gists_checkIsStarred R c gid = Inr u))
   \<and> (\<forall>e. gists_checkIsStarred R c gid = Inl e \<longrightarrow> isGistStarred R c gid = Inr False)"
  by (auto simp add: isGistStarred_def split: sum.splits)

theorem isGistStarred_collapses_witness:
  "gists_checkIsStarred demo_remote (new_Octokit ''ghp_valid'') ''offline'' = Inl NetworkError
   \<and> isGistStarred demo_remote (new_Octokit ''ghp_valid'') ''offline'' = Inr False
   \<and> gists_checkIsStarred demo_remote (new_Octokit ''ghp_valid'') ''other''
       = Inl (RequestError 404)
   \<and> isGistStarred demo_remote (new_Octokit ''ghp_valid'') ''other'' = Inr False
   \<and> isGistStarred demo_remote (new_Octokit ''ghp_valid'') ''starred'' = Inr True"
  using isGistStarred_collapses [of demo_remote "new_Octokit ''ghp_valid''" "''offline''"]
    isGistStarred_collapses [of demo_remote "new_Octokit ''ghp_valid''" "''other''"]
    isGistStarred_collapses [of demo_remote "new_Octokit ''ghp_valid''" "''starred''"]
  by (simp add: demo_remote_def)

lemma Math_floor_int:
  "Math_floor d =
     (if 0 \<le> expo d then int (mant d) * 2 ^ nat (expo d)
      else int (mant d) div 2 ^ nat (- expo d))"
proof (cases "0 \<le> expo d")
  case True
  have "\<lfloor>real (mant d) * 2 ^ nat (expo d)\<rfloor> = \<lfloor>of_int (int (mant d) * 2 ^ nat (expo d)) :: real\<rfloor>"
    by simp
  also have "\<dots> = int (mant d) * 2 ^ nat (expo d)"
    by (rule floor_of_int)
  finally show ?thesis using True by (simp add: Math_floor_def double_value_def)
next
  case False
  have "\<lfloor>real (mant d) / 2 ^ nat (- expo d)\<rfloor>
          = \<lfloor>of_int (int (mant d)) / of_int (2 ^ nat (- expo d)) :: real\<rfloor>"
    by simp
  also have "\<dots> = int (mant d) div 2 ^ nat (- expo d)"
    by (rule floor_divide_of_int_eq)
  finally show ?thesis using False by (simp add: Math_floor_def double_value_def)
qed

lemma bit_length_le: "n < 2 ^ k \<Longrightarrow> bit_length n \<le> k"
proof (induction k arbitrary: n)
  case 0
  then show ?case by (simp add: bit_length.simps)
next
  case (Suc k)
  show ?case
  proof (cases "n = 0")
    case True
    then show ?thesis by (simp add: bit_length.simps)
  next
    case False
    from Suc.prems have "n div 2 < 2 ^ k" by simp
    from Suc.IH [OF this] False show ?thesis
      by (subst bit_length.simps) simp
  qed
qed

lemma bit_length_ge: "bit_length n = Suc b \<Longrightarrow> 2 ^ b \<le> n"
proof (induction b arbitrary: n)
  case 0
  then show ?case by (subst (asm) bit_length.simps) (simp split: if_splits)
next
  case (Suc b)
  from Suc.prems have "n \<noteq> 0" "bit_length (n div 2) = Suc b"
    by (subst (asm) bit_length.simps; simp split: if_splits)+
  from Suc.IH [OF this(2)] have "2 ^ b \<le> n div 2" .
  then show ?case by simp
qed

lemma round_shift_less:
  assumes "2 * n + 2 ^ s < 2 * (K * 2 ^ s)"
  shows "round_shift n s < K"
proof -
  define q where "q = n div 2 ^ s"
  define r where "r = n mod 2 ^ s"
  define A where "A = q * 2 ^ s"
  define B where "B = K * 2 ^ s"
  define C where "C = (2::nat) ^ s"
  have n: "n = A + r"
    unfolding A_def q_def r_def by (rule div_mult_mod_eq [symmetric])
  from assms have h: "2 * (A + r) + C < 2 * B"
    by (simp add: n B_def C_def)
  then have "A < B" by arith
  then have qK: "q < K" by (simp add: A_def B_def)
  have "q + 1 < K" if "C \<le> 2 * r"
  proof -
    from h that have "A + C < B" by arith
    then have "(q + 1) * 2 ^ s < K * 2 ^ s" by (simp add: A_def B_def C_def)
    then show ?thesis by (simp only: mult_less_cancel2)
  qed
  with qK show ?thesis
    by (auto simp add: round_shift_def Let_def q_def [symmetric] r_def [symmetric] C_def)
qed

lemma bit_length_numeral:
  "bit_length 0 = 0"
  "bit_length (numeral Num.One) = 1"
  "bit_length (Suc 0) = 1"
  "bit_length (numeral (Num.Bit0 k)) = bit_length (numeral k) + 1"
  "bit_length (numeral (Num.Bit1 k)) = bit_length (numeral k) + 1"
proof -
  show "bit_length 0 = 0" by (simp add: bit_length.simps)
  show "bit_length (numeral Num.One) = 1" by (simp add: bit_length.simps)
  show "bit_length (Suc 0) = 1" by (simp add: bit_length.simps)
  have "numeral (Num.Bit0 k) div 2 = (numeral k :: nat)" by simp
  then show "bit_length (numeral (Num.Bit0 k)) = bit_length (numeral k) + 1"
    by (subst bit_length.simps) simp
  have "numeral (Num.Bit1 k) div 2 = (numeral k :: nat)" by simp
  then show "bit_length (numeral (Num.Bit1 k)) = bit_length (numeral k) + 1"
    by (subst bit_length.simps) simp
qed

text \<open>\<open>round_shift n s\<close> is an integer nearest to \<open>n / 2 ^ s\<close>.\<close>

lemma round_shift_nearest: "2 * \<bar>int (round_shift n s) * 2 ^ s - int n\<bar> \<le> 2 ^ s"
proof -
  define q where "q = n div 2 ^ s"
  define r where "r = n mod 2 ^ s"
  define A where "A = int q * 2 ^ s"
  define C where "C = (2::int) ^ s"
  have "n = q * 2 ^ s + r"
    unfolding q_def r_def by (rule div_mult_mod_eq [symmetric])
  then have "int n = int (q * 2 ^ s + r)" by simp
  then have n: "int n = A + int r" by (simp add: A_def)
  have "r < 2 ^ s" by (simp add: r_def)
  then have "int r < int (2 ^ s)" by (simp only: of_nat_less_iff)
  then have r: "int r < C" by (simp add: C_def)
  have up: "2 * \<bar>(A + C) - int n\<bar> \<le> C" if "C \<le> 2 * int r"
    using that n r by arith
  have down: "2 * \<bar>A - int n\<bar> \<le> C" if "2 * int r \<le> C"
    using that n by arith
  have c1: "(2 ^ s < 2 * r) = (C < 2 * int r)"
    unfolding C_def by (metis of_nat_less_iff of_nat_mult of_nat_numeral of_nat_power)
  have c2: "(2 * r = 2 ^ s) = (2 * int r = C)"
    unfolding C_def by (metis of_nat_eq_iff of_nat_mult of_nat_numeral of_nat_power)
  show ?thesis
  proof (cases "2 ^ s < 2 * r \<or> (2 * r = 2 ^ s \<and> odd q)")
    case True
    then have "round_shift n s = q + 1"
      by (simp add: round_shift_def Let_def q_def r_def)
    then have "int (round_shift n s) * 2 ^ s = A + C"
      by (simp add: A_def C_def algebra_simps)
    moreover from True have "C \<le> 2 * int r" using c1 c2 by auto
    ultimately show ?thesis using up by (simp add: C_def)
  next
    case False
    then have "round_shift n s = q"
      by (simp add: round_shift_def Let_def q_def r_def)
    then have "int (round_shift n s) * 2 ^ s = A"
      by (simp add: A_def)
    moreover from False have "2 * int r \<le> C" using c1 c2 by auto
    ultimately show ?thesis using down by (simp add: C_def)
  qed
qed

lemma round_shift_0: "round_shift n 0 = n"
  by (simp add: round_shift_def)

lemma times_hundred_shift:
  assumes "- 1074 \<le> expo d"
  shows "times_double d hundred =
           \<lparr>mant = round_shift (mant d * 100) (bit_length (mant d * 100) - 53),
            expo = expo d + int (bit_length (mant d * 100) - 53)\<rparr>"
proof -
  have "nat (max (int (bit_length (mant d * 100)) - 53) (- 1074 - expo d))
          = bit_length (mant d * 100) - 53"
    using assms by arith
  then show ?thesis
    by (simp only: times_double_def hundred_def Let_def double.select_convs add_0_right)
qed

lemma below_one:
  assumes "double_value d < 1" "mant d \<noteq> 0"
  shows "expo d < 0 \<and> mant d < 2 ^ nat (- expo d)"
proof -
  have neg: "expo d < 0"
  proof (rule ccontr)
    assume "\<not> expo d < 0"
    then have "double_value d = real (mant d * 2 ^ nat (expo d))"
      by (simp add: double_value_def)
    moreover have "1 \<le> mant d * 2 ^ nat (expo d)"
      using assms(2) by (simp add: Suc_leI)
    ultimately show False using assms(1) by linarith
  qed
  then have "real (mant d) / 2 ^ nat (- expo d) < 1"
    using assms(1) by (simp add: double_value_def)
  then have "real (mant d) < 2 ^ nat (- expo d)"
    by (simp add: divide_less_eq)
  then have "mant d < 2 ^ nat (- expo d)"
    by (metis of_nat_less_iff of_nat_numeral of_nat_power)
  with neg show ?thesis by simp
qed

lemma floor_scaled_less:
  assumes "R < K * 2 ^ F"
  shows "Math_floor \<lparr>mant = R, expo = - int F\<rparr> < int K"
proof (cases "F = 0")
  case True
  with assms show ?thesis by (simp add: Math_floor_int)
next
  case False
  from assms have "R div 2 ^ F < K"
    by (rule less_mult_imp_div_less)
  then have "int R div 2 ^ F < int K"
    by (metis of_nat_less_iff of_nat_numeral of_nat_power zdiv_int)
  with False show ?thesis by (simp add: Math_floor_int)
qed

lemma count_in_range:
  assumes "is_double d" "double_value d < 1"
  shows "0 \<le> Math_floor (times_double d hundred) \<and> Math_floor (times_double d hundred) < 100"
proof -
  define m where "m = mant d"
  define n where "n = m * 100"
  define s where "s = bit_length n - 53"
  from assms(1) have e_low: "- 1074 \<le> expo d" and m53: "m < 2 ^ 53"
    by (simp_all add: is_double_def m_def)
  have prod: "times_double d hundred = \<lparr>mant = round_shift n s, expo = expo d + int s\<rparr>"
    unfolding n_def s_def m_def by (rule times_hundred_shift [OF e_low])
  have nonneg: "0 \<le> Math_floor (times_double d hundred)"
    by (simp add: Math_floor_int pos_imp_zdiv_nonneg_iff)
  have "Math_floor (times_double d hundred) < 100"
  proof (cases "m = 0")
    case True
    then have "n = 0" "s = 0" by (simp_all add: n_def s_def bit_length.simps)
    then show ?thesis by (simp add: prod round_shift_0 Math_floor_int)
  next
    case False
    define E where "E = nat (- expo d)"
    from False below_one [OF assms(2)] have E: "expo d = - int E" "0 < E" "m < 2 ^ E"
      by (simp_all add: m_def E_def)
    then have nE: "n + 100 \<le> 100 * 2 ^ E"
      by (simp add: n_def)
    have "n < 128 * 2 ^ 53" using m53 by (simp add: n_def)
    then have "n < 2 ^ 60" by simp
    then have bl60: "bit_length n \<le> 60" by (rule bit_length_le)
    then have s7: "s \<le> 7" by (simp add: s_def)
    have sE: "s \<le> E"
    proof (cases "s = 0")
      case True
      then show ?thesis by simp
    next
      case s_pos: False
      then have "bit_length n = Suc (52 + s)" by (simp add: s_def)
      then have "2 ^ (52 + s) \<le> n" by (rule bit_length_ge)
      also have "n < 128 * 2 ^ E" using nE by simp
      also have "\<dots> = 2 ^ (7 + E)" by (simp add: power_add)
      finally have "52 + s < 7 + E" by simp
      then show ?thesis by simp
    qed
    define F where "F = E - s"
    have EF: "E = F + s" using sE by (simp add: F_def)
    have "(2::nat) ^ s \<le> 2 ^ 7" using s7 by (intro power_increasing) simp_all
    then have "(2::nat) ^ s \<le> 128" by simp
    with nE have "2 * n + 2 ^ s < 2 * (100 * 2 ^ E)" by linarith
    then have "2 * n + 2 ^ s < 2 * ((100 * 2 ^ F) * 2 ^ s)"
      by (simp add: EF power_add)
    then have "round_shift n s < 100 * 2 ^ F" by (rule round_shift_less)
    then have "Math_floor \<lparr>mant = round_shift n s, expo = - int F\<rparr> < int 100"
      by (rule floor_scaled_less)
    moreover have "expo d + int s = - int F" using E(1) EF by simp
    ultimately show ?thesis by (simp add: prod)
  qed
  with nonneg show ?thesis by simp
qed

lemma star_callback_eq:
  "star_callback = (\<lambda>gist g. (Inr (with_count gist (g 0)), \<lambda>n. g (Suc n)))"
  by (intro ext) (simp add: star_callback_def Math_random_def with_count_def)

lemma map_rng_draws:
  "map_rng (\<lambda>x g. (h x (g 0), \<lambda>n. g (Suc n))) xs g =
     (map2 h xs (map g [0..<length xs]), \<lambda>n. g (n + length xs))"
proof (induction xs arbitrary: g)
  case Nil
  then show ?case by simp
next
  case (Cons x xs)
  have "map g [0..<Suc (length xs)] = g 0 # map (\<lambda>n. g (Suc n)) [0..<length xs]"
    by (rule map_upt_Suc)
  then show ?case
    by (simp add: Cons.IH del: upt_Suc)
qed

lemma Promise_all_resolved: "Promise_all (map (\<lambda>p. Inr (f p)) ps) = Inr (map f ps)"
  by (induction ps) simp_all

lemma addStargazersCount_eq:
  "addStargazersCount gists g =
     (Inr (map2 with_count gists (map g [0..<length gists])), \<lambda>n. g (n + length gists))"
proof -
  have "map_rng star_callback gists g =
          (map (\<lambda>p. Inr (case p of (x, r) \<Rightarrow> with_count x r))
             (zip gists (map g [0..<length gists])), \<lambda>n. g (n + length gists))"
    unfolding star_callback_eq
    by (subst map_rng_draws) (simp add: case_prod_unfold)
  then show ?thesis
    unfolding addStargazersCount_def by (simp only: Let_def prod.case Promise_all_resolved)
qed

lemma demo_rng_well_formed: "well_formed_rng demo_rng"
  by (simp add: well_formed_rng_def demo_rng_def is_double_def double_value_def)

lemma demo_rng_counts:
  "Math_floor (times_double (demo_rng 0) hundred) = 37"
  "Math_floor (times_double (demo_rng 1) hundred) = 3"
  by (simp_all add: demo_rng_def Math_floor_int times_double_def hundred_def round_shift_def
        bit_length_numeral Let_def)

text \<open>
  Claim C4. For every list of gists, and every random source whose draws are doubles in
  \<open>[0, 1)\<close>, \<open>addStargazersCount\<close> resolves (it never rejects) with one gist per input
  gist, and the \<open>i\<close>-th of them carries the integer \<open>Math.floor(draw\<^sub>i * 100)\<close>, the
  product being the rounded product of doubles; this integer lies in \<open>[0, 100)\<close>. Every
  gist consumes a draw of its own, and the call leaves a random source whose draws are
  the ones not yet consumed. A second call on the same list therefore takes its counts
  from later draws, and these may differ from the first ones.
\<close>

theorem addStargazersCount_range:
  assumes "well_formed_rng g"
  shows "\<exists>out. fst (addStargazersCount gists g) = Inr out
           \<and> length out = length gists
           \<and> (\<forall>i<length gists.
                 stargazers_count (out ! i) = Some (Math_floor (times_double (g i) hundred))
                 \<and> 0 \<le> Math_floor (times_double (g i) hundred)
                 \<and> Math_floor (times_double (g i) hundred) < 100)
           \<and> snd (addStargazersCount gists g) = (\<lambda>n. g (n + length gists))
           \<and> well_formed_rng (snd (addStargazersCount gists g))
           \<and> (\<exists>again. fst (addStargazersCount gists (snd (addStargazersCount gists g)))
                          = Inr again
                 \<and> (\<forall>i<length gists.
                       stargazers_count (again ! i)
                         = Some (Math_floor (times_double (g (i + length gists)) hundred))))"
proof -
  have "0 \<le> Math_floor (times_double (g i) hundred)
        \<and> Math_floor (times_double (g i) hundred) < 100" for i
    using assms count_in_range [of "g i"] by (simp add: well_formed_rng_def)
  moreover have "well_formed_rng (\<lambda>n. g (n + length gists))"
    using assms by (simp add: well_formed_rng_def)
  ultimately show ?thesis
    by (simp add: addStargazersCount_eq with_count_def)
qed

theorem addStargazersCount_range_witness:
  "well_formed_rng demo_rng
   \<and> (\<exists>out. fst (addStargazersCount [plain_gist ''g1''] demo_rng) = Inr out
         \<and> stargazers_count (out ! 0) = Some 37)
   \<and> (\<exists>again. fst (addStargazersCount [plain_gist ''g1'']
                       (snd (addStargazersCount [plain_gist ''g1''] demo_rng))) = Inr again
         \<and> stargazers_count (again ! 0) = Some 3)"
proof -
  from addStargazersCount_range [OF demo_rng_well_formed, of "[plain_gist ''g1'']"]
  obtain out again where
    "fst (addStargazersCount [plain_gist ''g1''] demo_rng) = Inr out"
    "\<forall>i<1. stargazers_count (out ! i) = Some (Math_floor (times_double (demo_rng i) hundred))"
    "fst (addStargazersCount [plain_gist ''g1'']
            (snd (addStargazersCount [plain_gist ''g1''] demo_rng))) = Inr again"
    "\<forall>i<1. stargazers_count (again ! i)
             = Some (Math_floor (times_double (demo_rng (i + 1)) hundred))"
    by auto
  with demo_rng_counts demo_rng_well_formed show ?thesis by simp
qed

text \<open>
  Claim C9. For every list of gists \<open>addStargazersCount\<close> resolves with a list of the same
  length and order in which every gist agrees with the input gist at the same position
  on every field other than \<open>stargazers_count\<close>.
\<close>

theorem addStargazersCount_frame:
  "\<exists>out. fst (addStargazersCount gists g) = Inr out
     \<and> length out = length gists
     \<and> (\<forall>i<length gists.
           gist_id (out ! i) = gist_id (gists ! i)
           \<and> gist_description (out ! i) = gist_description (gists ! i)
           \<and> gist_public (out ! i) = gist_public (gists ! i)
           \<and> created_at (out ! i) = created_at (gists ! i)
           \<and> updated_at (out ! i) = updated_at (gists ! i)
           \<and> comments (out ! i) = comments (gists ! i)
           \<and> html_url (out ! i) = html_url (gists ! i)
           \<and> gist_files (out ! i) = gist_files (gists ! i)
           \<and> owner (out ! i) = owner (gists ! i)
           \<and> truncated (out ! i) = truncated (gists ! i)
           \<and> out ! i = (gists ! i)\<lparr>stargazers_count := stargazers_count (out ! i)\<rparr>)"
  by (simp add: addStargazersCount_eq with_count_def)

theorem addStargazersCount_frame_witness:
  "\<exists>out. fst (addStargazersCount [plain_gist ''g1'', plain_gist ''g2''] demo_rng) = Inr out
     \<and> length out = 2
     \<and> gist_id (out ! 0) = ''g1'' \<and> gist_id (out ! 1) = ''g2''
     \<and> gist_description (out ! 1) = ''demo''
     \<and> gist_files (out ! 1) = gist_files (plain_gist ''g2'')"
proof -
  from addStargazersCount_frame [of "[plain_gist ''g1'', plain_gist ''g2'']" demo_rng]
  obtain out where
    o: "fst (addStargazersCount [plain_gist ''g1'', plain_gist ''g2''] demo_rng) = Inr out"
    and l: "length out = 2"
    and a: "\<forall>i<2. gist_id (out ! i) = gist_id ([plain_gist ''g1'', plain_gist ''g2''] ! i)
              \<and> gist_description (out ! i)
                  = gist_description ([plain_gist ''g1'', plain_gist ''g2''] ! i)
              \<and> gist_files (out ! i) = gist_files ([plain_gist ''g1'', plain_gist ''g2''] ! i)"
    by auto
  from a have "gist_id (out ! 0) = ''g1''" "gist_id (out ! 1) = ''g2''"
    "gist_description (out ! 1) = ''demo''"
    "gist_files (out ! 1) = gist_files (plain_gist ''g2'')"
    by (simp_all add: plain_gist_def demo_gist_def)
  with o l show ?thesis by blast
qed

section \<open>Form pages: the request payloads\<close>

lemmas page_defs = setIsSubmitting_def setError_def toast_title_def navigate_def

lemma set_property_own_other:
  assumes "k \<noteq> k'"
  shows "own (set_property n obj k' v) k = own obj k"
  using assms by (simp add: set_property_def)

lemma set_property_own_same:
  assumes "''__proto__'' \<noteq> k"
  shows "own (set_property n obj k v) k = Some v"
  using assms by (auto simp add: set_property_def)

text \<open>For every filename other than \<open>__proto__\<close> the create form's payload holds the
  content of the last form entry with that name.\<close>

lemma create_filesObj_last_wins:
  assumes "name \<noteq> ''__proto__''"
  shows "own (foldl create_put obj fs) name =
     (if name \<in> new_filename ` set fs
      then Some (Content (new_content (last (filter (\<lambda>h. new_filename h = name) fs))))
      else own obj name)"
proof (induction fs rule: rev_induct)
  case Nil
  then show ?case by simp
next
  case (snoc f fs)
  from assms have np: "''__proto__'' \<noteq> name" by (rule not_sym)
  show ?case
  proof (cases "new_filename f = name")
    case True
    with np show ?thesis by (simp add: create_put_def set_property_own_same)
  next
    case False
    then have "name \<noteq> new_filename f" by simp
    with False show ?thesis
      using snoc.IH by (auto simp add: create_put_def set_property_own_other)
  qed
qed

lemma duplicate_form_last_wins:
  "own (create_filesObj (create_files duplicate_form)) ''a.txt'' = Some (Content ''second'')"
  unfolding create_filesObj_def
  by (subst create_filesObj_last_wins) (simp_all add: duplicate_form_def empty_object_def)

lemma create_onSubmit_eq:
  assumes "octokit a = Some c"
  shows "create_onSubmit R a data p =
           (case gists_create R c
                   \<lparr>cp_description = or_empty (create_description data),
                    cp_files = create_filesObj (create_files data),
                    cp_public = create_public data\<rparr> of
              Inr newGist \<Rightarrow>
                p\<lparr>isSubmitting := False, error := None,
                  page_toasts := page_toasts p @ [''Gist created successfully''],
                  navigated := Some (''/gists/'' @ gist_id newGist)\<rparr>
            | Inl err \<Rightarrow>
                p\<lparr>isSubmitting := False,
                  error := Some ''Failed to create gist. Please try again.''\<rparr>)"
  using assms
  by (simp add: create_onSubmit_def createGist_def page_defs Let_def split: sum.splits)

lemma createGist_forwards:
  "createGist R c description files isPublic
     = gists_create R c \<lparr>cp_description = description, cp_files = files, cp_public = isPublic\<rparr>"
  by (simp add: createGist_def)

text \<open>
  Claim C10 says that the create form builds its payload by keyed insertion without a
  duplicate check, so that entries sharing a filename leave exactly one payload entry
  for that name, holding the content of the last of them. The code does this for every
  filename but one (\<open>create_filesObj_last_wins\<close>). For two entries named \<open>__proto__\<close> it
  does not: each assignment replaces the prototype of the payload object, no entry is
  created, and the request carries an empty \<open>files\<close> object although \<open>onSubmit\<close> reports
  no error of its own.
\<close>

theorem create_proto_filename_lost:
  "create_filesObj (create_files proto_form)
     = \<lparr>own = Map.empty, proto = Value_prototype (Content ''second'')\<rparr>
   \<and> own (create_filesObj (create_files proto_form)) ''__proto__'' \<noteq> Some (Content ''second'')
   \<and> dom (own (create_filesObj (create_files proto_form))) = {}
   \<and> create_onSubmit demo_remote alice_session proto_form page_init
       = \<lparr>isSubmitting = False, error = None, page_toasts = [''Gist created successfully''],
          navigated = Some ''/gists/g1''\<rparr>"
proof -
  have f: "create_filesObj (create_files proto_form)
             = \<lparr>own = Map.empty, proto = Value_prototype (Content ''second'')\<rparr>"
    by (simp add: create_filesObj_def create_put_def set_property_def empty_object_def
          proto_form_def never_null_def)
  have o: "octokit alice_session = Some (new_Octokit ''ghp_valid'')"
    by (simp add: alice_session_eq)
  have "create_onSubmit demo_remote alice_session proto_form page_init
       = \<lparr>isSubmitting = False, error = None, page_toasts = [''Gist created successfully''],
          navigated = Some ''/gists/g1''\<rparr>"
    by (simp add: create_onSubmit_eq [OF o] demo_remote_def demo_gist_def page_init_def)
  with f show ?thesis by simp
qed

lemma edit_put_other:
  assumes "k \<notin> written_keys f"
  shows "own (edit_put obj f) k = own obj k"
  using assms
  by (cases "isDeleted f"; cases "truthy (originalFilename f)";
      cases "the (originalFilename f) = filename f")
     (simp_all add: edit_put_def written_keys_def set_property_own_other)

lemma dom_edit_put: "dom (own (edit_put obj f)) \<subseteq> dom (own obj) \<union> written_keys f"
proof
  fix k
  assume "k \<in> dom (own (edit_put obj f))"
  then obtain y where y: "own (edit_put obj f) k = Some y" by auto
  show "k \<in> dom (own obj) \<union> written_keys f"
  proof (cases "k \<in> written_keys f")
    case True
    then show ?thesis by simp
  next
    case False
    from edit_put_other [OF False, of obj] y have "own obj k = Some y" by simp
    then show ?thesis by auto
  qed
qed

lemma foldl_edit_put_other:
  assumes "\<forall>h \<in> set fs. k \<notin> written_keys h"
  shows "own (foldl edit_put obj fs) k = own obj k"
  using assms by (induction fs arbitrary: obj) (simp_all add: edit_put_other)

lemma edit_filesObj_split:
  assumes "\<forall>h \<in> set post. written_keys h \<inter> written_keys f = {}" "k \<in> written_keys f"
  shows "own (edit_filesObj (pre @ f # post)) k
           = own (edit_put (foldl edit_put empty_object pre) f) k"
proof -
  from assms have "\<forall>h \<in> set post. k \<notin> written_keys h" by auto
  then show ?thesis
    by (simp add: edit_filesObj_def foldl_edit_put_other)
qed

lemma edit_onSubmit_eq:
  assumes "octokit a = Some c" "truthy gid"
  shows "edit_onSubmit R a gid data p =
           (case gists_update R c
                   \<lparr>up_gist_id = the gid, up_description = or_empty (edit_description data),
                    up_files = edit_filesObj (edit_files data)\<rparr> of
              Inr updated \<Rightarrow>
                p\<lparr>isSubmitting := False, error := None,
                  page_toasts := page_toasts p @ [''Gist updated successfully''],
                  navigated := Some (''/gists/'' @ the gid)\<rparr>
            | Inl err \<Rightarrow>
                p\<lparr>isSubmitting := False,
                  error := Some ''Failed to update gist. Please try again.''\<rparr>)"
  using assms
  by (simp add: edit_onSubmit_def updateGist_def page_defs Let_def split: sum.splits)

text \<open>
  Claim C5, as amended. The edit form builds the update payload by keyed insertion in
  form order. For a form entry that assigns to no key \<open>__proto__\<close> and whose keys no later
  entry assigns to: an existing file (one with a non-empty original filename) marked as
  deleted maps its original filename to the deletion marker \<open>null\<close>; otherwise a renamed
  existing file maps its original filename to the deletion marker and its current
  filename to its content; every other file maps its current filename to its content.
  This payload is what \<open>onSubmit\<close> hands to the remote update call.
\<close>

theorem edit_payload_entry:
  assumes "\<forall>h \<in> set post. written_keys h \<inter> written_keys f = {}"
    and "''__proto__'' \<notin> written_keys f"
  shows "(isDeleted f \<and> truthy (originalFilename f) \<longrightarrow>
            own (edit_filesObj (pre @ f # post)) (the (originalFilename f)) = Some None)
         \<and> (\<not> isDeleted f \<and> truthy (originalFilename f)
              \<and> the (originalFilename f) \<noteq> filename f \<longrightarrow>
            own (edit_filesObj (pre @ f # post)) (the (originalFilename f)) = Some None
            \<and> own (edit_filesObj (pre @ f # post)) (filename f)
                = Some (Some (Content (content f))))
         \<and> (\<not> truthy (originalFilename f)
              \<or> (\<not> isDeleted f \<and> the (originalFilename f) = filename f) \<longrightarrow>
            own (edit_filesObj (pre @ f # post)) (filename f)
              = Some (Some (Content (content f))))
         \<and> (octokit a = Some c \<and> truthy gid \<longrightarrow>
              edit_onSubmit R a gid data p =
                (case gists_update R c
                        \<lparr>up_gist_id = the gid,
                         up_description = or_empty (edit_description data),
                         up_files = edit_filesObj (edit_files data)\<rparr> of
                   Inr updated \<Rightarrow>
                     p\<lparr>isSubmitting := False, error := None,
                       page_toasts := page_toasts p @ [''Gist updated successfully''],
                       navigated := Some (''/gists/'' @ the gid)\<rparr>
                 | Inl err \<Rightarrow>
                     p\<lparr>isSubmitting := False,
                       error := Some ''Failed to update gist. Please try again.''\<rparr>))"
proof -
  note sp = edit_filesObj_split [OF assms(1), of _ pre]
  have del: "own (edit_filesObj (pre @ f # post)) (the (originalFilename f)) = Some None"
    if "isDeleted f" "truthy (originalFilename f)"
    using that assms(2)
    by (subst sp) (simp_all add: written_keys_def edit_put_def set_property_own_same)
  have ren: "own (edit_filesObj (pre @ f # post)) (the (originalFilename f)) = Some None
             \<and> own (edit_filesObj (pre @ f # post)) (filename f)
                 = Some (Some (Content (content f)))"
    if "\<not> isDeleted f" "truthy (originalFilename f)" "the (originalFilename f) \<noteq> filename f"
  proof -
    have "own (edit_filesObj (pre @ f # post)) (the (originalFilename f)) = Some None"
      using that assms(2)
      by (subst sp)
         (simp_all add: written_keys_def edit_put_def set_property_own_same
            set_property_own_other)
    moreover have "own (edit_filesObj (pre @ f # post)) (filename f)
                     = Some (Some (Content (content f)))"
      using that assms(2)
      by (subst sp) (simp_all add: written_keys_def edit_put_def set_property_own_same)
    ultimately show ?thesis by simp
  qed
  have oth: "own (edit_filesObj (pre @ f # post)) (filename f)
               = Some (Some (Content (content f)))"
    if "\<not> truthy (originalFilename f) \<or> (\<not> isDeleted f \<and> the (originalFilename f) = filename f)"
    using that assms(2)
    by (subst sp) (auto simp add: written_keys_def edit_put_def set_property_own_same)
  show ?thesis
    using del ren oth by (simp add: edit_onSubmit_eq)
qed

theorem edit_payload_entry_witness:
  "written_keys renamed_b \<inter> written_keys deleted_a = {}
   \<and> ''__proto__'' \<notin> written_keys deleted_a \<and> ''__proto__'' \<notin> written_keys renamed_b
   \<and> isDeleted deleted_a \<and> truthy (originalFilename deleted_a)
   \<and> own (edit_filesObj [deleted_a, renamed_b]) ''a.txt'' = Some None
   \<and> own (edit_filesObj [deleted_a, renamed_b]) ''b.txt'' = Some None
   \<and> own (edit_filesObj [deleted_a, renamed_b]) ''c.txt'' = Some (Some (Content ''body''))"
proof -
  have h1: "\<forall>h \<in> set [renamed_b]. written_keys h \<inter> written_keys deleted_a = {}"
    by (simp add: written_keys_def renamed_b_def deleted_a_def)
  have h2: "\<forall>h \<in> set []. written_keys h \<inter> written_keys renamed_b = {}"
    by simp
  have p1: "''__proto__'' \<notin> written_keys deleted_a"
    by (simp add: written_keys_def deleted_a_def)
  have p2: "''__proto__'' \<notin> written_keys renamed_b"
    by (simp add: written_keys_def renamed_b_def)
  from edit_payload_entry [OF h1 p1, of "[]"] edit_payload_entry [OF h2 p2, of "[deleted_a]"]
    h1 p1 p2
  show ?thesis
    by (simp add: renamed_b_def deleted_a_def)
qed

text \<open>
  Without the condition on later entries the claim fails: when \<open>a.txt\<close> is marked as
  deleted and a new file named \<open>a.txt\<close> is added after it, the payload maps \<open>a.txt\<close> to the
  new content, not to the deletion marker.
\<close>

theorem edit_payload_overwritten_counterexample:
  "isDeleted deleted_a \<and> originalFilename deleted_a = Some ''a.txt''
   \<and> own (edit_filesObj [deleted_a, added_a]) ''a.txt'' = Some (Some (Content ''new''))
   \<and> own (edit_filesObj [deleted_a, added_a]) ''a.txt'' \<noteq> Some None"
  by (simp add: edit_filesObj_def edit_put_def set_property_def empty_object_def
        deleted_a_def added_a_def)

end
